theory Spec2Isabelle
  imports Main "HOL-Library.AList"
begin

section \<open>GvGen: the graph model of gvgen.py\<close>

text \<open>
  The class \<open>GvGen\<close> keeps a list of node dictionaries, a list of link dictionaries, a
  table of named styles, a default style and a handful of numeric settings, and writes
  the graph in the dot language. This theory embeds the node, link, style and property
  operations and the serializer, and proves the properties stated of them.

  Python dictionaries are association lists in insertion order: \<open>d[k] = v\<close> is
  \<open>AList.update k v\<close> (an existing key keeps its place, a new one goes last),
  \<open>del d[k]\<close> is \<open>AList.delete k\<close>, \<open>d[k]\<close> is \<open>map_of d k\<close> with
  \<open>None\<close> standing for the KeyError.
\<close>

subsection \<open>Exceptions\<close>

datatype pyerror = KeyError | ValueError | TypeError | RecursionError

definition bind_err :: "pyerror + 'a \<Rightarrow> ('a \<Rightarrow> pyerror + 'b) \<Rightarrow> pyerror + 'b" where
  "bind_err r f = (case r of Inl e \<Rightarrow> Inl e | Inr x \<Rightarrow> f x)"

subsection \<open>Numbers and their decimal spelling\<close>

text \<open>
  The widths handled by the smart links are Python floats that travel through
  \<open>str\<close> and \<open>float\<close>. They are modelled as exact decimal fractions:
  \<open>PyFloat m e\<close> is the number \<open>m / 10 ^ e\<close>. Addition and comparison are exact,
  \<open>str_float\<close> writes the positional spelling with at least one digit after the point
  (what \<open>str\<close> gives for a float between 0.0001 and 10^16), and \<open>float_of_str\<close>
  reads the spellings \<open>[-]digits[.digits]\<close> (any other text is a ValueError in the model).
  Binary rounding is not modelled; for the values met with the default settings
  (1.2, 2.2, ..., 9.2 and 0.8, 1.3, 1.8, 2.3) the IEEE sums print as the same decimals.
\<close>

datatype pyfloat = PyFloat int nat

fun float_add :: "pyfloat \<Rightarrow> pyfloat \<Rightarrow> pyfloat" where
  "float_add (PyFloat m1 e1) (PyFloat m2 e2) =
     PyFloat (m1 * 10 ^ (max e1 e2 - e1) + m2 * 10 ^ (max e1 e2 - e2)) (max e1 e2)"

fun float_less :: "pyfloat \<Rightarrow> pyfloat \<Rightarrow> bool" where
  "float_less (PyFloat m1 e1) (PyFloat m2 e2) =
     (m1 * 10 ^ (max e1 e2 - e1) < m2 * 10 ^ (max e1 e2 - e2))"

declare float_add.simps [simp del] float_less.simps [simp del]

definition digit_char :: "nat \<Rightarrow> char" where
  "digit_char d = ''0123456789'' ! d"

fun str_nat :: "nat \<Rightarrow> string" where
  "str_nat n = (if n < 10 then [digit_char n] else str_nat (n div 10) @ [digit_char (n mod 10)])"

declare str_nat.simps [simp del]

fun strip_zeros :: "int \<Rightarrow> nat \<Rightarrow> int \<times> nat" where
  "strip_zeros m e = (if 1 < e \<and> m mod 10 = 0 then strip_zeros (m div 10) (e - 1) else (m, e))"

declare strip_zeros.simps [simp del]

definition zero_pad :: "nat \<Rightarrow> string \<Rightarrow> string" where
  "zero_pad w s = replicate (w - length s) (CHR ''0'') @ s"

fun str_float :: "pyfloat \<Rightarrow> string" where
  "str_float (PyFloat m e) =
     (let (m', e') = (if e = 0 then (m * 10, 1) else strip_zeros m e);
          a = nat \<bar>m'\<bar>
      in (if m' < 0 then ''-'' else '''') @ str_nat (a div 10 ^ e') @ ''.''
           @ zero_pad e' (str_nat (a mod 10 ^ e')))"

declare str_float.simps [simp del]

definition digit_val :: "char \<Rightarrow> nat option" where
  "digit_val c = map_of [(CHR ''0'', 0), (CHR ''1'', 1), (CHR ''2'', 2), (CHR ''3'', 3),
     (CHR ''4'', 4), (CHR ''5'', 5), (CHR ''6'', 6), (CHR ''7'', 7), (CHR ''8'', 8),
     (CHR ''9'', 9)] c"

fun digits_val :: "nat \<Rightarrow> string \<Rightarrow> nat option" where
  "digits_val acc [] = Some acc"
| "digits_val acc (c # cs) =
     (case digit_val c of None \<Rightarrow> None | Some d \<Rightarrow> digits_val (10 * acc + d) cs)"

definition float_of_str :: "string \<Rightarrow> pyerror + pyfloat" where
  "float_of_str s =
     (let neg = (s \<noteq> [] \<and> hd s = CHR ''-'');
          r = (if neg then tl s else s);
          ip = takeWhile (\<lambda>c. c \<noteq> CHR ''.'') r;
          fp = drop (Suc (length ip)) r
      in if ip = [] then Inl ValueError
         else (case digits_val 0 (ip @ fp) of
                 None \<Rightarrow> Inl ValueError
               | Some n \<Rightarrow> Inr (PyFloat (if neg then - int n else int n) (length fp))))"

subsection \<open>Nodes, links and the graph object\<close>

text \<open>
  A node dictionary has the keys id, parent, style and properties. The graph gives every
  node its own id, and Python compares two node dictionaries by their contents, id
  included, so a reference to a node of the graph is modelled by that node's id: equal
  references are equal ids. The list \<open>nodes\<close> holds the node objects themselves, in
  creation order; nodes are never removed from it.

  A link dictionary may exist without being in the list of links (it was never
  inserted, or it was removed), while the caller still holds it. So every link ever
  constructed lives in \<open>heap\<close>, a reference to a link is its index there, and
  \<open>links\<close> is the list of references that the attribute \<open>__links\<close> holds.
\<close>

type_synonym pydict = "(string \<times> string) list"

record node =
  node_id :: nat
  node_parent :: "nat option"
  node_style :: "string option"
  node_properties :: pydict

record link =
  from_node :: nat
  to_node :: nat
  link_style :: "string option"
  link_properties :: pydict
  cl_from_node :: "nat option"
  cl_to_node :: "nat option"

record gvgen =
  max_line_width :: pyfloat
  max_arrow_width :: pyfloat
  line_factor :: pyfloat
  arrow_factor :: pyfloat
  initial_line_width :: pyfloat
  initial_arrow_width :: pyfloat
  options :: pydict
  id_counter :: nat
  nodes :: "node list"
  links :: "nat list"
  heap :: "link list"
  styles :: "(string \<times> (string \<times> string) list) list"
  default_style :: "(string \<times> string) list"
  smart_mode :: bool

text \<open>
  The constructor called as \<open>GvGen()\<close>: no legend, and the default option string
  \<open>compound=true;\<close> already split into its one pair.
\<close>

definition GvGen_init :: gvgen where
  "GvGen_init = \<lparr>
     max_line_width = PyFloat 10 0,
     max_arrow_width = PyFloat 2 0,
     line_factor = PyFloat 1 0,
     arrow_factor = PyFloat 5 1,
     initial_line_width = PyFloat 12 1,
     initial_arrow_width = PyFloat 8 1,
     options = [(''compound'', ''true'')],
     id_counter = 0,
     nodes = [],
     links = [],
     heap = [],
     styles = [],
     default_style = [],
     smart_mode = False \<rparr>"

definition padding_str :: string where
  "padding_str = ''   ''"

subsection \<open>Creating nodes\<close>

text \<open>
  What \<open>__node_new\<close> returns: the value \<open>-1\<close> when the label is taken, the node
  otherwise.
\<close>

datatype newitem = MinusOne | Node nat

text \<open>
  The loop of \<open>__node_new\<close> over the existing nodes (lines 83 to 87): \<open>Inr True\<close>
  when it returns \<open>-1\<close>, \<open>Inr False\<close> when it runs to its end, and the KeyError of
  \<open>props['label']\<close> when it meets a node whose label was removed.
\<close>

fun label_taken :: "node list \<Rightarrow> string \<Rightarrow> pyerror + bool" where
  "label_taken [] name = Inr False"
| "label_taken (e # es) name =
     (case map_of (node_properties e) ''label'' of
        None \<Rightarrow> Inl KeyError
      | Some l \<Rightarrow> if l = name then Inr True else label_taken es name)"

definition node_new :: "gvgen \<Rightarrow> string \<Rightarrow> nat option \<Rightarrow> bool \<Rightarrow> pyerror + (newitem \<times> gvgen)" where
  "node_new g name parent distinct_flag =
     bind_err (if distinct_flag then label_taken (nodes g) name else Inr False)
       (\<lambda>taken.
          if taken then Inr (MinusOne, g)
          else
            let i = id_counter g + 1;
                n = \<lparr> node_id = i, node_parent = parent, node_style = None,
                      node_properties = [(''label'', name)] \<rparr>
            in Inr (Node i, g\<lparr> id_counter := i, nodes := nodes g @ [n] \<rparr>))"

definition newItem :: "gvgen \<Rightarrow> string \<Rightarrow> nat option \<Rightarrow> bool \<Rightarrow> pyerror + (newitem \<times> gvgen)" where
  "newItem g name parent distinct_flag = node_new g name parent distinct_flag"

definition has_children :: "gvgen \<Rightarrow> nat \<Rightarrow> node list" where
  "has_children g parent = filter (\<lambda>e. node_parent e = Some parent) (nodes g)"

subsection \<open>Properties and styles\<close>

datatype entity = NodeE nat | LinkE nat

definition find_node :: "gvgen \<Rightarrow> nat \<Rightarrow> node option" where
  "find_node g i = find (\<lambda>n. node_id n = i) (nodes g)"

definition find_link :: "gvgen \<Rightarrow> nat \<Rightarrow> link option" where
  "find_link g h = (if h < length (heap g) then Some (heap g ! h) else None)"

text \<open>
  The dictionary \<open>node_or_link['properties']\<close>, when the reference is to an object of
  the graph.
\<close>

fun entity_properties :: "gvgen \<Rightarrow> entity \<Rightarrow> pydict option" where
  "entity_properties g (NodeE i) = map_option node_properties (find_node g i)"
| "entity_properties g (LinkE h) = map_option link_properties (find_link g h)"

fun set_entity_properties :: "gvgen \<Rightarrow> entity \<Rightarrow> pydict \<Rightarrow> gvgen" where
  "set_entity_properties g (NodeE i) ps =
     g\<lparr> nodes := map (\<lambda>n. if node_id n = i then n\<lparr> node_properties := ps \<rparr> else n) (nodes g) \<rparr>"
| "set_entity_properties g (LinkE h) ps =
     g\<lparr> heap := (heap g)[h := (heap g ! h)\<lparr> link_properties := ps \<rparr>] \<rparr>"

text \<open>
  \<open>propertyAppend\<close> writes into the object's own dictionary. The graph never hands out
  a reference that none of its objects answers to; the model is total all the same, and
  for such a reference \<open>propertyAppend\<close> and \<open>styleApply\<close> leave the graph as it is,
  \<open>propertyGet\<close> returns \<open>None\<close> and \<open>propertyRemove\<close> gives TypeError.
\<close>

definition propertyAppend :: "gvgen \<Rightarrow> entity \<Rightarrow> string \<Rightarrow> string \<Rightarrow> gvgen" where
  "propertyAppend g node_or_link key val =
     (case entity_properties g node_or_link of
        None \<Rightarrow> g
      | Some props \<Rightarrow> set_entity_properties g node_or_link (AList.update key val props))"

text \<open>
  \<open>propertyGet\<close> catches every exception and returns \<open>None\<close>: for a missing key,
  and for the \<open>None\<close> that \<open>__link_smart\<close> passes when no link was found.
\<close>

definition propertyGet :: "gvgen \<Rightarrow> entity option \<Rightarrow> string \<Rightarrow> string option" where
  "propertyGet g node_or_link key =
     (case node_or_link of
        None \<Rightarrow> None
      | Some e \<Rightarrow> (case entity_properties g e of None \<Rightarrow> None | Some props \<Rightarrow> map_of props key))"

text \<open>\<open>propertyRemove\<close> is \<open>del props[key]\<close>: KeyError when the key is missing.\<close>

definition propertyRemove :: "gvgen \<Rightarrow> entity \<Rightarrow> string \<Rightarrow> pyerror + gvgen" where
  "propertyRemove g node_or_link key =
     (case entity_properties g node_or_link of
        None \<Rightarrow> Inl TypeError
      | Some props \<Rightarrow>
          (case map_of props key of
             None \<Rightarrow> Inl KeyError
           | Some _ \<Rightarrow> Inr (set_entity_properties g node_or_link (AList.delete key props))))"

definition styleAppend :: "gvgen \<Rightarrow> string \<Rightarrow> string \<Rightarrow> string \<Rightarrow> gvgen" where
  "styleAppend g stylename key val =
     (let old = (case map_of (styles g) stylename of None \<Rightarrow> [] | Some ps \<Rightarrow> ps)
      in g\<lparr> styles := AList.update stylename (old @ [(key, val)]) (styles g) \<rparr>)"

fun styleApply :: "gvgen \<Rightarrow> string \<Rightarrow> entity \<Rightarrow> gvgen" where
  "styleApply g stylename (NodeE i) =
     g\<lparr> nodes := map (\<lambda>n. if node_id n = i then n\<lparr> node_style := Some stylename \<rparr> else n) (nodes g) \<rparr>"
| "styleApply g stylename (LinkE h) =
     (if h < length (heap g)
      then g\<lparr> heap := (heap g)[h := (heap g ! h)\<lparr> link_style := Some stylename \<rparr>] \<rparr>
      else g)"

definition styleDefaultAppend :: "gvgen \<Rightarrow> string \<Rightarrow> string \<Rightarrow> gvgen" where
  "styleDefaultAppend g key val = g\<lparr> default_style := default_style g @ [(key, val)] \<rparr>"

subsection \<open>Creating links\<close>

text \<open>
  \<open>__link_exists\<close> returns the first stored link with the given endpoints, or
  \<open>None\<close>.
\<close>

definition link_matches :: "gvgen \<Rightarrow> nat \<Rightarrow> nat \<Rightarrow> nat \<Rightarrow> bool" where
  "link_matches g a b h =
     (case find_link g h of None \<Rightarrow> False | Some l \<Rightarrow> from_node l = a \<and> to_node l = b)"

definition link_exists :: "gvgen \<Rightarrow> nat \<Rightarrow> nat \<Rightarrow> nat option" where
  "link_exists g a b = find (link_matches g a b) (links g)"

text \<open>
  \<open>self.__links.remove(linkto)\<close> drops the first element of the list that is equal to
  \<open>linkto\<close>, and Python compares dictionaries by contents, whatever the order of their
  keys. It raises ValueError when there is no such element.
\<close>

definition dict_eq :: "pydict \<Rightarrow> pydict \<Rightarrow> bool" where
  "dict_eq p q = list_all (\<lambda>k. map_of p k = map_of q k) (map fst p @ map fst q)"

definition link_eq :: "link \<Rightarrow> link \<Rightarrow> bool" where
  "link_eq l1 l2 =
     (from_node l1 = from_node l2 \<and> to_node l1 = to_node l2 \<and> link_style l1 = link_style l2
      \<and> dict_eq (link_properties l1) (link_properties l2)
      \<and> cl_from_node l1 = cl_from_node l2 \<and> cl_to_node l1 = cl_to_node l2)"

definition ref_eq :: "gvgen \<Rightarrow> nat \<Rightarrow> nat \<Rightarrow> bool" where
  "ref_eq g h1 h2 =
     (h1 = h2 \<or> (case (find_link g h1, find_link g h2) of
                    (Some l1, Some l2) \<Rightarrow> link_eq l1 l2
                  | _ \<Rightarrow> False))"

fun list_remove :: "gvgen \<Rightarrow> nat \<Rightarrow> nat list \<Rightarrow> pyerror + nat list" where
  "list_remove g x [] = Inl ValueError"
| "list_remove g x (h # hs) =
     (if ref_eq g h x then Inr hs
      else bind_err (list_remove g x hs) (\<lambda>hs'. Inr (h # hs')))"

definition truthy :: "string option \<Rightarrow> bool" where
  "truthy s = (case s of None \<Rightarrow> False | Some t \<Rightarrow> t \<noteq> [])"

text \<open>Lines 120 to 127 of \<open>__link_smart\<close>: the pen width.\<close>

definition smart_penwidth :: "gvgen \<Rightarrow> nat \<Rightarrow> nat option \<Rightarrow> pyerror + gvgen" where
  "smart_penwidth g link linkfrom =
     (let pw = propertyGet g (map_option LinkE linkfrom) ''penwidth''
      in case (truthy pw, pw, linkfrom) of
           (True, Some s, Some lf) \<Rightarrow>
             bind_err (float_of_str s)
               (\<lambda>f. let pw' = float_add f (line_factor g)
                     in if float_less pw' (max_line_width g)
                        then Inr (propertyAppend g (LinkE lf) ''penwidth'' (str_float pw'))
                        else Inr g)
         | _ \<Rightarrow> Inr (propertyAppend g (LinkE link) ''penwidth''
                       (str_float (initial_line_width g))))"

text \<open>Lines 129 to 136 of \<open>__link_smart\<close>: the arrow size.\<close>

definition smart_arrowsize :: "gvgen \<Rightarrow> nat \<Rightarrow> nat option \<Rightarrow> pyerror + gvgen" where
  "smart_arrowsize g link linkfrom =
     (let aw = propertyGet g (map_option LinkE linkfrom) ''arrowsize''
      in case (truthy aw, aw, linkfrom) of
           (True, Some s, Some lf) \<Rightarrow>
             bind_err (float_of_str s)
               (\<lambda>f. if float_less f (max_arrow_width g)
                     then Inr (propertyAppend g (LinkE lf) ''arrowsize''
                                 (str_float (float_add f (arrow_factor g))))
                     else Inr g)
         | _ \<Rightarrow> Inr (propertyAppend g (LinkE link) ''arrowsize''
                       (str_float (initial_arrow_width g))))"

text \<open>
  \<open>__link_smart\<close> receives the link just constructed. Both lookups are made before
  anything changes; the last test stands outside the \<open>if self.smart_mode\<close> block.
\<close>

definition link_smart :: "gvgen \<Rightarrow> nat \<Rightarrow> pyerror + gvgen" where
  "link_smart g link =
     (case find_link g link of
        None \<Rightarrow> Inl TypeError
      | Some l \<Rightarrow>
          let linkfrom = link_exists g (from_node l) (to_node l);
              linkto = link_exists g (to_node l) (from_node l)
          in bind_err
               (if smart_mode g then
                  bind_err
                    (case linkto of
                       None \<Rightarrow> Inr g
                     | Some r \<Rightarrow>
                         bind_err (list_remove g r (links g))
                           (\<lambda>ls. Inr (propertyAppend (g\<lparr> links := ls \<rparr>) (LinkE link)
                                         ''dir'' ''both'')))
                    (\<lambda>g1. bind_err (smart_penwidth g1 link linkfrom)
                            (\<lambda>g2. smart_arrowsize g2 link linkfrom))
                else Inr g)
               (\<lambda>g3. if linkfrom = None then Inr (g3\<lparr> links := links g3 @ [link] \<rparr>)
                      else Inr g3))"

text \<open>
  \<open>__link_new\<close> builds the dictionary, a new object, and returns it whatever
  \<open>__link_smart\<close> did with it.
\<close>

definition new_link_record :: "nat \<Rightarrow> nat \<Rightarrow> string option \<Rightarrow> nat option \<Rightarrow> nat option \<Rightarrow> link" where
  "new_link_record a b label cl_from cl_to =
     \<lparr> from_node = a, to_node = b, link_style = None,
       link_properties = (if truthy label then [(''label'', case label of Some s \<Rightarrow> s | None \<Rightarrow> [])] else []),
       cl_from_node = cl_from, cl_to_node = cl_to \<rparr>"

definition link_new :: "gvgen \<Rightarrow> nat \<Rightarrow> nat \<Rightarrow> string option \<Rightarrow> nat option \<Rightarrow> nat option
    \<Rightarrow> pyerror + (nat \<times> gvgen)" where
  "link_new g a b label cl_from cl_to =
     (let link = length (heap g);
          g0 = g\<lparr> heap := heap g @ [new_link_record a b label cl_from cl_to] \<rparr>
      in bind_err (link_smart g0 link) (\<lambda>g'. Inr (link, g')))"

definition newLink :: "gvgen \<Rightarrow> nat \<Rightarrow> nat \<Rightarrow> string option \<Rightarrow> nat option \<Rightarrow> nat option
    \<Rightarrow> pyerror + (nat \<times> gvgen)" where
  "newLink g src dst label cl_src cl_dst = link_new g src dst label cl_src cl_dst"

subsection \<open>Writing the dot text\<close>

text \<open>
  \<open>d.update(pairs)\<close> stores the pairs from left to right. \<open>join\<close> is
  \<open>sep.join(items)\<close>. The text written to \<open>fd\<close> is the value returned; when an
  exception is raised the model returns the exception alone.
\<close>

definition dict_update :: "pydict \<Rightarrow> (string \<times> string) list \<Rightarrow> pydict" where
  "dict_update d pairs = foldl (\<lambda>acc kv. AList.update (fst kv) (snd kv) acc) d pairs"

fun join :: "string \<Rightarrow> string list \<Rightarrow> string" where
  "join sep [] = []"
| "join sep [x] = x"
| "join sep (x # y # ys) = x @ sep @ join sep (y # ys)"

definition quote :: string where
  "quote = [CHR 0x22]"

definition newline :: string where
  "newline = [CHR 0x0A]"


text \<open>
  \<open>self.__styles[stylename]\<close>, read only when the style name is neither \<open>None\<close>
  nor the empty string.
\<close>

definition style_pairs :: "gvgen \<Rightarrow> string option \<Rightarrow> pyerror + (string \<times> string) list" where
  "style_pairs g st =
     (if truthy st
      then (case map_of (styles g) (case st of Some n \<Rightarrow> n | None \<Rightarrow> []) of
              None \<Rightarrow> Inl KeyError
            | Some ps \<Rightarrow> Inr ps)
      else Inr [])"



text \<open>Lines 276 to 284 of \<open>propertiesLinkAsStringGet\<close>: the dictionary \<open>props\<close>.\<close>

definition link_props :: "gvgen \<Rightarrow> link \<Rightarrow> pyerror + pydict" where
  "link_props g l =
     bind_err (style_pairs g (link_style l))
       (\<lambda>ps. Inr (dict_update (dict_update [] ps) (link_properties l)))"

definition propertiesLinkAsStringGet :: "gvgen \<Rightarrow> link \<Rightarrow> pyerror + string" where
  "propertiesLinkAsStringGet g l =
     bind_err (link_props g l)
       (\<lambda>props. Inr (if props \<noteq> []
                      then join '','' (map (\<lambda>kv. fst kv @ ''='' @ quote @ snd kv @ quote) props)
                      else []))"

text \<open>
  The body of the loop of \<open>dotLinks\<close> for one link \<open>l\<close> that leaves \<open>node\<close>
  (lines 428 to 469). \<open>cluster_src\<close> and \<open>cluster_dst\<close> hold an id or the empty
  string, here \<open>None\<close>; the test \<open>if cluster_src\<close> is false for the empty string and
  for the number 0.
\<close>

definition dotLink :: "gvgen \<Rightarrow> nat \<Rightarrow> link \<Rightarrow> pyerror + string" where
  "dotLink g node l =
     (let children = has_children g node;
          (src, cluster_src) =
             (if children \<noteq> []
              then ((case cl_from_node l of Some c \<Rightarrow> c | None \<Rightarrow> node_id (hd children)),
                    Some node)
              else (node, None));
          children' = has_children g (to_node l);
          (dst, cluster_dst) =
             (if children' \<noteq> []
              then ((case cl_to_node l of Some c \<Rightarrow> c | None \<Rightarrow> node_id (hd children')),
                    Some (to_node l))
              else (to_node l, None))
      in bind_err (propertiesLinkAsStringGet g l)
           (\<lambda>props.
              let props1 = (case cluster_src of
                              Some c \<Rightarrow> if c \<noteq> 0
                                        then (if props \<noteq> [] then props @ '','' else props)
                                             @ ''ltail=cluster'' @ str_nat c
                                        else props
                            | None \<Rightarrow> props);
                  props2 = (case cluster_dst of
                              Some c \<Rightarrow> if c \<noteq> 0
                                        then (if props1 \<noteq> [] then props1 @ '','' else props1)
                                             @ ''lhead=cluster'' @ str_nat c
                                        else props1
                            | None \<Rightarrow> props1)
              in Inr (padding_str @ ''node'' @ str_nat src @ ''->node'' @ str_nat dst
                      @ (if props2 \<noteq> [] then '' ['' @ props2 @ '']'' else [])
                      @ '';'' @ newline)))"

definition stored_links :: "gvgen \<Rightarrow> link list" where
  "stored_links g = concat (map (\<lambda>h. case find_link g h of None \<Rightarrow> [] | Some l \<Rightarrow> [l]) (links g))"





subsection \<open>Sequences of calls\<close>

text \<open>
  \<open>newItems\<close> makes the calls of a list one after the other on the same graph. A call
  that raises leaves the graph as it was; its exception is recorded in the list of
  results, as is the value of every call that returns.
\<close>

fun newItems :: "gvgen \<Rightarrow> (string \<times> nat option \<times> bool) list \<Rightarrow> gvgen \<times> (pyerror + newitem) list" where
  "newItems g [] = (g, [])"
| "newItems g (c # cs) =
     (case newItem g (fst c) (fst (snd c)) (snd (snd c)) of
        Inl e \<Rightarrow> (fst (newItems g cs), Inl e # snd (newItems g cs))
      | Inr r \<Rightarrow> (fst (newItems (snd r) cs), Inr (fst r) # snd (newItems (snd r) cs)))"

fun created_ids :: "(pyerror + newitem) list \<Rightarrow> nat list" where
  "created_ids [] = []"
| "created_ids (Inr (Node i) # rs) = i # created_ids rs"
| "created_ids (r # rs) = created_ids rs"

text \<open>Scripts: one more call on the graph that the calls so far have produced.\<close>

definition then_newItem :: "pyerror + gvgen \<Rightarrow> string \<Rightarrow> nat option \<Rightarrow> bool \<Rightarrow> pyerror + gvgen" where
  "then_newItem r name parent distinct_flag =
     bind_err r (\<lambda>g. bind_err (newItem g name parent distinct_flag) (\<lambda>res. Inr (snd res)))"

definition then_newLink :: "pyerror + gvgen \<Rightarrow> nat \<Rightarrow> nat \<Rightarrow> pyerror + gvgen" where
  "then_newLink r src dst =
     bind_err r (\<lambda>g. bind_err (newLink g src dst None None None) (\<lambda>res. Inr (snd res)))"

definition then_propertyRemove :: "pyerror + gvgen \<Rightarrow> entity \<Rightarrow> string \<Rightarrow> pyerror + gvgen" where
  "then_propertyRemove r e key = bind_err r (\<lambda>g. propertyRemove g e key)"

text \<open>The stored links, each with its two endpoints and its value for one property.\<close>

definition stored_summary :: "pyerror + gvgen \<Rightarrow> string \<Rightarrow> pyerror + (nat \<times> nat \<times> string option) list" where
  "stored_summary r key =
     bind_err r (\<lambda>g. Inr (map (\<lambda>l. (from_node l, to_node l, map_of (link_properties l) key))
                              (stored_links g)))"

text \<open>
  The graph after \<open>A = newItem("A")\<close> and \<open>B = newItem("B")\<close>, and the same graph
  with \<open>smart_mode = 1\<close>.
\<close>

definition graph_AB :: gvgen where
  "graph_AB = GvGen_init\<lparr> id_counter := 2,
     nodes := [\<lparr> node_id = 1, node_parent = None, node_style = None,
                  node_properties = [(''label'', ''A'')] \<rparr>,
               \<lparr> node_id = 2, node_parent = None, node_style = None,
                  node_properties = [(''label'', ''B'')] \<rparr>] \<rparr>"

definition graph_AB_smart :: gvgen where
  "graph_AB_smart = graph_AB\<lparr> smart_mode := True \<rparr>"


subsection \<open>References that answer to an object\<close>

text \<open>Every stored reference is the index of a link that was constructed.\<close>

definition heap_ok :: "gvgen \<Rightarrow> bool" where
  "heap_ok g = list_all (\<lambda>h. h < length (heap g)) (links g)"

subsection \<open>The layers of properties, as the specification words them\<close>


subsection \<open>The edge statement, as the specification words it\<close>

text \<open>
  A node is a cluster when some node names it as parent; its first child is the first such
  node in creation order. The endpoint written for a cluster is the override when the link
  has one, else the first child; for a leaf it is the node itself. A cluster endpoint adds
  one attribute, \<open>ltail\<close> or \<open>lhead\<close>, after the link's own attribute text.
\<close>

definition first_child :: "gvgen \<Rightarrow> nat \<Rightarrow> node option" where
  "first_child g n = find (\<lambda>e. node_parent e = Some n) (nodes g)"

definition rendered_endpoint :: "gvgen \<Rightarrow> nat \<Rightarrow> nat option \<Rightarrow> nat" where
  "rendered_endpoint g n override =
     (case first_child g n of
        None \<Rightarrow> n
      | Some c \<Rightarrow> (case override of Some x \<Rightarrow> x | None \<Rightarrow> node_id c))"

definition cluster_attr :: "gvgen \<Rightarrow> string \<Rightarrow> nat \<Rightarrow> string list" where
  "cluster_attr g name n =
     (case first_child g n of None \<Rightarrow> [] | Some c \<Rightarrow> [name @ ''=cluster'' @ str_nat n])"

definition rendered_link :: "gvgen \<Rightarrow> link \<Rightarrow> string \<Rightarrow> string" where
  "rendered_link g l props =
     (let attrs = (if props = [] then [] else [props])
                  @ cluster_attr g ''ltail'' (from_node l)
                  @ cluster_attr g ''lhead'' (to_node l)
      in padding_str @ ''node'' @ str_nat (rendered_endpoint g (from_node l) (cl_from_node l))
         @ ''->node'' @ str_nat (rendered_endpoint g (to_node l) (cl_to_node l))
         @ (if attrs = [] then [] else '' ['' @ join '','' attrs @ '']'')
         @ '';'' @ newline)"

text \<open>
  A cluster \<open>C1\<close> with the children \<open>n1\<close> and \<open>n2\<close>, and a leaf \<open>n3\<close>.
\<close>

definition graph_cluster :: gvgen where
  "graph_cluster = GvGen_init\<lparr> id_counter := 4,
     nodes := [\<lparr> node_id = 1, node_parent = None, node_style = None,
                  node_properties = [(''label'', ''C1'')] \<rparr>,
               \<lparr> node_id = 2, node_parent = Some 1, node_style = None,
                  node_properties = [(''label'', ''n1'')] \<rparr>,
               \<lparr> node_id = 3, node_parent = Some 1, node_style = None,
                  node_properties = [(''label'', ''n2'')] \<rparr>,
               \<lparr> node_id = 4, node_parent = None, node_style = None,
                  node_properties = [(''label'', ''n3'')] \<rparr>] \<rparr>"

subsection \<open>Graphs that differ in the properties of links\<close>

text \<open>
  \<open>only_properties g g'\<close>: the graph \<open>g'\<close> has the link objects of \<open>g\<close>, each
  with the endpoints, style and overrides it has in \<open>g\<close>; only their properties may
  differ.
\<close>

definition only_properties :: "gvgen \<Rightarrow> gvgen \<Rightarrow> bool" where
  "only_properties g g' =
     (length (heap g') = length (heap g)
      \<and> list_all (\<lambda>h. heap g' ! h = (heap g ! h)\<lparr> link_properties := link_properties (heap g' ! h) \<rparr>)
           [0 ..< length (heap g)])"

text \<open>The graph of two nodes after one \<open>newLink(A, B)\<close> with smart mode off.\<close>

definition graph_AB_linked :: gvgen where
  "graph_AB_linked = graph_AB\<lparr> heap := [new_link_record 1 2 None None None], links := [0] \<rparr>"

section \<open>Properties\<close>

subsection \<open>Decimal spellings met with the default settings\<close>

lemma str_float_defaults:
  "str_float (PyFloat 12 1) = ''1.2''"
  "str_float (PyFloat 8 1) = ''0.8''"
  "str_float (float_add (PyFloat 12 1) (PyFloat 1 0)) = ''2.2''"
  "str_float (float_add (PyFloat 22 1) (PyFloat 1 0)) = ''3.2''"
  "str_float (float_add (PyFloat 8 1) (PyFloat 5 1)) = ''1.3''"
  "str_float (float_add (PyFloat 13 1) (PyFloat 5 1)) = ''1.8''"
  by code_simp+

lemma float_less_defaults:
  "float_less (float_add (PyFloat 12 1) (PyFloat 1 0)) (PyFloat 10 0)"
  "float_less (float_add (PyFloat 22 1) (PyFloat 1 0)) (PyFloat 10 0)"
  "float_less (PyFloat 8 1) (PyFloat 2 0)"
  "float_less (PyFloat 13 1) (PyFloat 2 0)"
  by code_simp+

lemma float_of_str_defaults:
  "float_of_str ''1.2'' = Inr (PyFloat 12 1)" "float_of_str ''0.8'' = Inr (PyFloat 8 1)"
  "float_of_str ''2.2'' = Inr (PyFloat 22 1)" "float_of_str ''1.3'' = Inr (PyFloat 13 1)"
  by code_simp+

lemma graph_AB_built:
  "then_newItem (then_newItem (Inr GvGen_init) ''A'' None False) ''B'' None False = Inr graph_AB"
  by (simp add: then_newItem_def newItem_def node_new_def bind_err_def GvGen_init_def graph_AB_def)

subsection \<open>Node ids\<close>

lemma label_taken_cases:
  "label_taken ns name = Inl KeyError \<or> label_taken ns name = Inr True
   \<or> label_taken ns name = Inr False"
  by (induction ns) (auto split: option.splits)

lemma node_new_cases:
  "node_new g name parent d = Inl KeyError
   \<or> node_new g name parent d = Inr (MinusOne, g)
   \<or> node_new g name parent d =
        Inr (Node (Suc (id_counter g)),
             g\<lparr> id_counter := Suc (id_counter g),
                nodes := nodes g @ [\<lparr> node_id = Suc (id_counter g), node_parent = parent,
                                      node_style = None, node_properties = [(''label'', name)] \<rparr>] \<rparr>)"
  using label_taken_cases [of "nodes g" name]
  by (auto simp: node_new_def bind_err_def Let_def)

lemma newItems_ids:
  "map node_id (nodes (fst (newItems g calls)))
     = map node_id (nodes g) @ created_ids (snd (newItems g calls))
   \<and> sorted_wrt (<) (created_ids (snd (newItems g calls)))
   \<and> list_all (\<lambda>i. id_counter g < i) (created_ids (snd (newItems g calls)))"
proof (induction calls arbitrary: g)
  case Nil
  show ?case by simp
next
  case (Cons c cs)
  let ?g1 = "g\<lparr> id_counter := Suc (id_counter g),
                nodes := nodes g @ [\<lparr> node_id = Suc (id_counter g), node_parent = fst (snd c),
                                      node_style = None, node_properties = [(''label'', fst c)] \<rparr>] \<rparr>"
  from node_new_cases [of g "fst c" "fst (snd c)" "snd (snd c)"]
  consider (err) "newItem g (fst c) (fst (snd c)) (snd (snd c)) = Inl KeyError"
    | (dup) "newItem g (fst c) (fst (snd c)) (snd (snd c)) = Inr (MinusOne, g)"
    | (new) "newItem g (fst c) (fst (snd c)) (snd (snd c)) = Inr (Node (Suc (id_counter g)), ?g1)"
    unfolding newItem_def by blast
  then show ?case
  proof cases
    case err
    with Cons.IH [of g] show ?thesis by simp
  next
    case dup
    with Cons.IH [of g] show ?thesis by simp
  next
    case new
    have "list_all (\<lambda>i. Suc (id_counter g) < i) (created_ids (snd (newItems ?g1 cs)))"
      using Cons.IH [of ?g1] by simp
    then have lt: "\<forall>i \<in> set (created_ids (snd (newItems ?g1 cs))). Suc (id_counter g) < i"
      by (simp add: list_all_iff)
    from new Cons.IH [of ?g1] lt show ?thesis
      by (auto simp: list_all_iff)
  qed
qed

text \<open>
  Claim C9. Whatever calls of \<open>newItem\<close> are made on a graph, in whatever state it is,
  the ids of the nodes they create are strictly increasing in the order of creation, hence
  all different, and they are the ids that the calls add, in that order, to the list of
  nodes.
\<close>

theorem node_ids_strictly_increasing:
  "sorted_wrt (<) (created_ids (snd (newItems g calls)))
   \<and> distinct (created_ids (snd (newItems g calls)))
   \<and> map node_id (nodes (fst (newItems g calls)))
       = map node_id (nodes g) @ created_ids (snd (newItems g calls))"
  using newItems_ids [of g calls]
  by (auto simp: strict_sorted_iff)

theorem node_ids_strictly_increasing_witness:
  "created_ids (snd (newItems GvGen_init
      [(''a'', None, False), (''b'', Some 1, True), (''a'', None, True), (''c'', None, False)]))
     = [1, 2, 3]
   \<and> sorted_wrt (<) [1, 2, 3 :: nat] \<and> distinct [1, 2, 3 :: nat]"
  using node_ids_strictly_increasing [of GvGen_init
      "[(''a'', None, False), (''b'', Some 1, True), (''a'', None, True), (''c'', None, False)]"]
  by (simp add: newItem_def node_new_def GvGen_init_def bind_err_def)

subsection \<open>Distinct labels\<close>

lemma label_taken_found:
  assumes "list_all (\<lambda>m. map_of (node_properties m) ''label'' \<noteq> None) pre"
    and "map_of (node_properties n) ''label'' = Some name"
  shows "label_taken (pre @ n # post) name = Inr True"
  using assms by (induction pre) (auto split: option.splits)

lemma label_taken_fresh:
  assumes "list_all (\<lambda>m. map_of (node_properties m) ''label'' \<noteq> None
                        \<and> map_of (node_properties m) ''label'' \<noteq> Some name) ns"
  shows "label_taken ns name = Inr False"
  using assms by (induction ns) (auto split: option.splits)

text \<open>
  Claim C7, as amended. \<open>newItem\<close> with \<open>distinct\<close> set returns \<open>-1\<close>, raises
  nothing and leaves the graph unchanged, whenever some node, whatever its parent, has the
  label asked for and every node stored before it still has a label; when every node has a
  label and none has the one asked for, the call returns a new node, with the next id.
\<close>

theorem distinct_node_creation:
  "(nodes g = pre @ n # post
      \<and> list_all (\<lambda>m. map_of (node_properties m) ''label'' \<noteq> None) pre
      \<and> map_of (node_properties n) ''label'' = Some name
    \<longrightarrow> newItem g name parent True = Inr (MinusOne, g))
   \<and> (list_all (\<lambda>m. map_of (node_properties m) ''label'' \<noteq> None
                      \<and> map_of (node_properties m) ''label'' \<noteq> Some name) (nodes g)
    \<longrightarrow> newItem g name parent True
          = Inr (Node (Suc (id_counter g)),
                 g\<lparr> id_counter := Suc (id_counter g),
                    nodes := nodes g @ [\<lparr> node_id = Suc (id_counter g), node_parent = parent,
                                          node_style = None,
                                          node_properties = [(''label'', name)] \<rparr>] \<rparr>))"
  by (auto simp: newItem_def node_new_def bind_err_def label_taken_found label_taken_fresh)

theorem distinct_node_creation_witness:
  "nodes graph_AB = [hd (nodes graph_AB)] @ hd (tl (nodes graph_AB)) # []
   \<and> newItem graph_AB ''B'' (Some 1) True = Inr (MinusOne, graph_AB)
   \<and> newItem graph_AB ''C'' None True
       = Inr (Node 3, graph_AB\<lparr> id_counter := 3,
                nodes := nodes graph_AB @ [\<lparr> node_id = 3, node_parent = None, node_style = None,
                                              node_properties = [(''label'', ''C'')] \<rparr>] \<rparr>)"
  using distinct_node_creation [of graph_AB "[hd (nodes graph_AB)]" "hd (tl (nodes graph_AB))"
          "[]" "''B''" "Some 1"]
        distinct_node_creation [of graph_AB "[]" "hd (nodes graph_AB)" "tl (nodes graph_AB)"
          "''C''" None]
  by (simp add: graph_AB_def GvGen_init_def)

text \<open>
  The claim as it was stated fails: after \<open>newItem("A")\<close>, \<open>newItem("X")\<close> and
  \<open>propertyRemove\<close> of the label of the first node, \<open>newItem("X", distinct=True)\<close>
  raises KeyError although a node labelled X exists.
\<close>

theorem distinct_node_creation_counterexample:
  "then_newItem
     (then_propertyRemove
        (then_newItem (then_newItem (Inr GvGen_init) ''A'' None False) ''X'' None False)
        (NodeE 1) ''label'')
     ''X'' None True
   = Inl KeyError"
  by code_simp

subsection \<open>Reading and removing a property\<close>





subsection \<open>The layers of properties\<close>









subsection \<open>Creating links\<close>

lemma find_link_alloc:
  "find_link (g\<lparr> heap := heap g @ [r] \<rparr>) h
   = (if h < length (heap g) then find_link g h else if h = length (heap g) then Some r else None)"
  by (simp add: find_link_def nth_append)

lemma link_exists_cong:
  assumes "links g1 = links g2"
    and "\<And>h. h \<in> set (links g2) \<Longrightarrow> link_matches g1 a b h = link_matches g2 a b h"
  shows "link_exists g1 a b = link_exists g2 a b"
  unfolding link_exists_def using assms by (auto intro: find_cong)

lemma link_exists_alloc:
  assumes "heap_ok g"
  shows "link_exists (g\<lparr> heap := heap g @ [r] \<rparr>) a b = link_exists g a b"
proof (rule link_exists_cong)
  show "links (g\<lparr> heap := heap g @ [r] \<rparr>) = links g" by simp
next
  fix h assume "h \<in> set (links g)"
  with assms have "h < length (heap g)" by (simp add: heap_ok_def list_all_iff)
  then show "link_matches (g\<lparr> heap := heap g @ [r] \<rparr>) a b h = link_matches g a b h"
    by (simp add: link_matches_def find_link_alloc)
qed

lemma link_exists_SomeD:
  assumes "link_exists g a b = Some f"
  shows "f \<in> set (links g) \<and> link_matches g a b f"
  using assms unfolding link_exists_def by (auto simp: find_Some_iff)

lemma link_matches_valid:
  assumes "link_matches g a b f"
  shows "f < length (heap g) \<and> from_node (heap g ! f) = a \<and> to_node (heap g ! f) = b"
  using assms by (auto simp: link_matches_def find_link_def split: if_splits)

lemma list_remove_found_aux:
  assumes "find (link_matches g a b) ls = Some r"
  shows "list_remove g r ls = Inr (remove1 r ls)"
  using assms
proof (induction ls)
  case Nil
  then show ?case by simp
next
  case (Cons h hs)
  show ?case
  proof (cases "link_matches g a b h")
    case True
    with Cons.prems have "r = h" by simp
    then show ?thesis by (simp add: ref_eq_def)
  next
    case False
    with Cons.prems have found: "find (link_matches g a b) hs = Some r" by simp
    then have r: "link_matches g a b r" by (auto simp: find_Some_iff)
    from False r have ne: "h \<noteq> r" by auto
    have "\<not> ref_eq g h r"
      using False r ne
      by (auto simp: ref_eq_def link_matches_def link_eq_def split: option.splits)
    with Cons.IH [OF found] ne show ?thesis by (simp add: bind_err_def)
  qed
qed

lemma list_remove_found:
  "link_exists g a b = Some r \<Longrightarrow> list_remove g r (links g) = Inr (remove1 r (links g))"
  unfolding link_exists_def by (rule list_remove_found_aux)

lemma propertyAppend_link:
  "h < length (heap g) \<Longrightarrow>
   propertyAppend g (LinkE h) k v
   = g\<lparr> heap := (heap g)[h := (heap g ! h)\<lparr> link_properties := AList.update k v (link_properties (heap g ! h)) \<rparr>] \<rparr>"
  by (simp add: propertyAppend_def find_link_def)

lemma propertyGet_link:
  "h < length (heap g) \<Longrightarrow>
   propertyGet g (Some (LinkE h)) k = map_of (link_properties (heap g ! h)) k"
  by (simp add: propertyGet_def find_link_def)

lemma propertyGet_None [simp]: "propertyGet g None k = None"
  by (simp add: propertyGet_def)

lemma link_new_plain:
  assumes "\<not> smart_mode g" and "heap_ok g"
  shows "link_new g a b label cf ct
         = Inr (length (heap g),
                g\<lparr> heap := heap g @ [new_link_record a b label cf ct],
                   links := (if link_exists g a b = None then links g @ [length (heap g)]
                             else links g) \<rparr>)"
  using assms
  by (simp add: link_new_def link_smart_def Let_def find_link_alloc bind_err_def
        link_exists_alloc new_link_record_def)

lemma link_new_first:
  assumes "smart_mode g" and "heap_ok g"
    and "link_exists g a b = None" and "link_exists g b a = None"
  shows "link_new g a b label cf ct
         = Inr (length (heap g),
                g\<lparr> heap := heap g @ [(new_link_record a b label cf ct)
                       \<lparr> link_properties :=
                           AList.update ''arrowsize'' (str_float (initial_arrow_width g))
                             (AList.update ''penwidth'' (str_float (initial_line_width g))
                                (link_properties (new_link_record a b label cf ct))) \<rparr>],
                   links := links g @ [length (heap g)] \<rparr>)"
  using assms
  by (simp add: link_new_def link_smart_def Let_def find_link_alloc bind_err_def
        link_exists_alloc new_link_record_def smart_penwidth_def smart_arrowsize_def
        propertyAppend_link truthy_def)

lemma link_new_reverse:
  assumes "smart_mode g" and "heap_ok g"
    and "link_exists g a b = None" and "link_exists g b a = Some r"
  shows "link_new g a b label cf ct
         = Inr (length (heap g),
                g\<lparr> heap := heap g @ [(new_link_record a b label cf ct)
                       \<lparr> link_properties :=
                           AList.update ''arrowsize'' (str_float (initial_arrow_width g))
                             (AList.update ''penwidth'' (str_float (initial_line_width g))
                                (AList.update ''dir'' ''both''
                                   (link_properties (new_link_record a b label cf ct)))) \<rparr>],
                   links := remove1 r (links g) @ [length (heap g)] \<rparr>)"
proof -
  let ?g0 = "g\<lparr> heap := heap g @ [new_link_record a b label cf ct] \<rparr>"
  have ex: "link_exists ?g0 b a = Some r" "link_exists ?g0 a b = None"
    using assms by (simp_all add: link_exists_alloc)
  have rm: "list_remove ?g0 r (links g) = Inr (remove1 r (links g))"
    using list_remove_found [OF ex(1)] by simp
  show ?thesis
    using assms(1) ex rm
    by (simp add: link_new_def link_smart_def Let_def find_link_alloc bind_err_def
        new_link_record_def smart_penwidth_def smart_arrowsize_def
        propertyAppend_link truthy_def)
qed

lemma smart_penwidth_init:
  assumes "\<not> truthy (propertyGet g (map_option LinkE linkfrom) ''penwidth'')"
  shows "smart_penwidth g link linkfrom
         = Inr (propertyAppend g (LinkE link) ''penwidth'' (str_float (initial_line_width g)))"
  using assms by (simp add: smart_penwidth_def Let_def split: option.splits bool.splits)

lemma smart_penwidth_thicken:
  assumes "propertyGet g (Some (LinkE f)) ''penwidth'' = Some pw" and "pw \<noteq> []"
  shows "smart_penwidth g link (Some f)
         = bind_err (float_of_str pw)
             (\<lambda>x. Inr (if float_less (float_add x (line_factor g)) (max_line_width g)
                        then propertyAppend g (LinkE f) ''penwidth''
                               (str_float (float_add x (line_factor g)))
                        else g))"
  using assms by (simp add: smart_penwidth_def Let_def truthy_def bind_err_def split: sum.splits)

lemma smart_arrowsize_init:
  assumes "\<not> truthy (propertyGet g (map_option LinkE linkfrom) ''arrowsize'')"
  shows "smart_arrowsize g link linkfrom
         = Inr (propertyAppend g (LinkE link) ''arrowsize'' (str_float (initial_arrow_width g)))"
  using assms by (simp add: smart_arrowsize_def Let_def split: option.splits bool.splits)

lemma smart_arrowsize_thicken:
  assumes "propertyGet g (Some (LinkE f)) ''arrowsize'' = Some aw" and "aw \<noteq> []"
  shows "smart_arrowsize g link (Some f)
         = bind_err (float_of_str aw)
             (\<lambda>y. Inr (if float_less y (max_arrow_width g)
                        then propertyAppend g (LinkE f) ''arrowsize''
                               (str_float (float_add y (arrow_factor g)))
                        else g))"
  using assms by (simp add: smart_arrowsize_def Let_def truthy_def bind_err_def split: sum.splits)

lemma link_new_repeat:
  assumes "smart_mode g" and "heap_ok g"
    and "link_exists g a b = Some f" and "link_exists g b a = None"
    and "map_of (link_properties (heap g ! f)) ''penwidth'' = Some pw" and "pw \<noteq> []"
    and "float_of_str pw = Inr x" and "float_less (float_add x (line_factor g)) (max_line_width g)"
    and "map_of (link_properties (heap g ! f)) ''arrowsize'' = Some aw" and "aw \<noteq> []"
    and "float_of_str aw = Inr y" and "float_less y (max_arrow_width g)"
  shows "link_new g a b label cf ct
         = Inr (length (heap g),
                g\<lparr> heap := (heap g)[f := (heap g ! f)
                       \<lparr> link_properties :=
                           AList.update ''arrowsize'' (str_float (float_add y (arrow_factor g)))
                             (AList.update ''penwidth'' (str_float (float_add x (line_factor g)))
                                (link_properties (heap g ! f))) \<rparr>]
                     @ [new_link_record a b label cf ct] \<rparr>)"
proof -
  let ?r = "new_link_record a b label cf ct"
  let ?g0 = "g\<lparr> heap := heap g @ [?r] \<rparr>"
  let ?l1 = "(heap g ! f)\<lparr> link_properties :=
               AList.update ''penwidth'' (str_float (float_add x (line_factor g)))
                 (link_properties (heap g ! f)) \<rparr>"
  let ?g1 = "g\<lparr> heap := (heap g)[f := ?l1] @ [?r] \<rparr>"
  let ?l2 = "(heap g ! f)\<lparr> link_properties :=
               AList.update ''arrowsize'' (str_float (float_add y (arrow_factor g)))
                 (AList.update ''penwidth'' (str_float (float_add x (line_factor g)))
                    (link_properties (heap g ! f))) \<rparr>"
  let ?g2 = "g\<lparr> heap := (heap g)[f := ?l2] @ [?r] \<rparr>"
  have ex: "link_exists ?g0 a b = Some f" "link_exists ?g0 b a = None"
    using assms by (simp_all add: link_exists_alloc)
  have f: "f < length (heap g)"
    using link_exists_SomeD [OF assms(3)] link_matches_valid by blast
  have pg0: "propertyGet ?g0 (Some (LinkE f)) ''penwidth'' = Some pw"
    using f assms(5) by (simp add: propertyGet_link nth_append)
  have pen: "smart_penwidth ?g0 (length (heap g)) (Some f) = Inr ?g1"
    using f assms(7,8)
    by (simp add: smart_penwidth_thicken [OF pg0 assms(6)] bind_err_def propertyAppend_link
          nth_append list_update_append)
  have pg1: "propertyGet ?g1 (Some (LinkE f)) ''arrowsize'' = Some aw"
    using f assms(9) by (simp add: propertyGet_link nth_append update_conv')
  have arr: "smart_arrowsize ?g1 (length (heap g)) (Some f) = Inr ?g2"
    using f assms(11,12)
    by (simp add: smart_arrowsize_thicken [OF pg1 assms(10)] bind_err_def propertyAppend_link
          nth_append list_update_append)
  have fl: "find_link ?g0 (length (heap g)) = Some ?r"
    by (simp add: find_link_alloc)
  have ends: "from_node ?r = a" "to_node ?r = b"
    by (simp_all add: new_link_record_def)
  show ?thesis
    unfolding link_new_def Let_def link_smart_def fl option.case ends ex
    using assms(1) pen arr by (simp add: bind_err_def)
qed

lemma heap_ok_fresh: "heap_ok g \<Longrightarrow> length (heap g) \<notin> set (links g)"
  by (auto simp: heap_ok_def list_all_iff)

lemma link_exists_NoneD:
  "link_exists g a b = None \<Longrightarrow> h \<in> set (links g) \<Longrightarrow> \<not> link_matches g a b h"
  by (auto simp: link_exists_def find_None_iff)

lemma find_append_if:
  "find P (xs @ ys) = (case find P xs of Some x \<Rightarrow> Some x | None \<Rightarrow> find P ys)"
  by (induction xs) simp_all

lemma link_exists_stored:
  assumes "heap_ok g" and "heap g' = heap g @ [r]" and "links g' = links g @ [length (heap g)]"
  shows "link_exists g' x y
         = (case link_exists g x y of
              Some f \<Rightarrow> Some f
            | None \<Rightarrow> if from_node r = x \<and> to_node r = y then Some (length (heap g)) else None)"
proof -
  have old: "find (link_matches g' x y) (links g) = find (link_matches g x y) (links g)"
  proof (rule find_cong [OF refl])
    fix h assume "h \<in> set (links g)"
    with assms(1) have "h < length (heap g)" by (simp add: heap_ok_def list_all_iff)
    then show "link_matches g' x y h = link_matches g x y h"
      by (simp add: link_matches_def find_link_def nth_append assms(2))
  qed
  have new: "link_matches g' x y (length (heap g)) = (from_node r = x \<and> to_node r = y)"
    by (simp add: link_matches_def find_link_def assms(2))
  show ?thesis
    by (simp add: link_exists_def find_append_if assms(3) old new split: option.splits)
qed

lemma heap_ok_stored:
  "heap_ok g \<Longrightarrow> heap_ok (g\<lparr> heap := heap g @ [r], links := links g @ [length (heap g)] \<rparr>)"
  by (auto simp: heap_ok_def list_all_iff)

lemma then_newLink_Inr:
  "then_newLink (Inr g) a b = bind_err (link_new g a b None None None) (\<lambda>res. Inr (snd res))"
  by (simp add: then_newLink_def newLink_def bind_err_def)

lemma link_exists_thicken:
  assumes "heap_ok g" and "f < length (heap g)"
    and "from_node l' = from_node (heap g ! f)" and "to_node l' = to_node (heap g ! f)"
    and "heap g' = (heap g)[f := l'] @ rs" and "links g' = links g"
  shows "link_exists g' x y = link_exists g x y"
proof (rule link_exists_cong [OF assms(6)])
  fix h assume "h \<in> set (links g)"
  with assms(1) have "h < length (heap g)" by (simp add: heap_ok_def list_all_iff)
  then show "link_matches g' x y h = link_matches g x y h"
    using assms(2-4) by (simp add: link_matches_def find_link_def assms(5) nth_append nth_list_update)
qed

text \<open>
  Claim C1, as amended. With smart mode off, \<open>newLink\<close> constructs the link and changes
  no property; it appends the new link to the stored links when no stored link has the
  same two endpoints, and leaves the stored links as they are when one has. So two
  successive calls with the same endpoints store one link, not two.
\<close>

theorem createLink_without_smart_mode:
  assumes "\<not> smart_mode g" and "heap_ok g"
  shows "newLink g a b label cf ct
         = Inr (length (heap g),
                g\<lparr> heap := heap g @ [new_link_record a b label cf ct],
                   links := (if link_exists g a b = None then links g @ [length (heap g)]
                             else links g) \<rparr>)"
  using assms by (simp add: newLink_def link_new_plain)

theorem createLink_without_smart_mode_witness:
  "\<not> smart_mode graph_AB \<and> heap_ok graph_AB
   \<and> newLink graph_AB 1 2 None None None
       = Inr (0, graph_AB\<lparr> heap := [new_link_record 1 2 None None None], links := [0] \<rparr>)"
proof -
  have h1: "\<not> smart_mode graph_AB" by (simp add: graph_AB_def GvGen_init_def)
  have h2: "heap_ok graph_AB" by (simp add: graph_AB_def GvGen_init_def heap_ok_def)
  have e: "link_exists graph_AB 1 2 = None" "heap graph_AB = []" "links graph_AB = []"
    by (simp_all add: graph_AB_def GvGen_init_def link_exists_def)
  from createLink_without_smart_mode [OF h1 h2, of 1 2 None None None] h1 h2 e
  show ?thesis by simp
qed

text \<open>
  The claim as it was stated fails: with smart mode off, two calls \<open>newLink(A, B)\<close>
  leave one stored link from A to B.
\<close>

theorem createLink_without_smart_mode_counterexample:
  "stored_summary (then_newLink (then_newLink (Inr graph_AB) 1 2) 1 2) ''label''
   = Inr [(1, 2, None)]"
  by code_simp

text \<open>
  Claim C2, as amended. In smart mode, on a graph that stores no link between two
  different nodes A and B, creating A to B and then B to A leaves the stored links as they
  were plus one: the link from B to A made by the second call, which carries
  \<open>dir=both\<close>. The link from A to B made by the first call is no longer stored.
\<close>

theorem smart_link_reversal:
  assumes "smart_mode g" and "heap_ok g" and "a \<noteq> b"
    and "link_exists g a b = None" and "link_exists g b a = None"
  shows "\<exists>g2. then_newLink (then_newLink (Inr g) a b) b a = Inr g2
            \<and> links g2 = links g @ [Suc (length (heap g))]
            \<and> link_exists g2 b a = Some (Suc (length (heap g)))
            \<and> link_exists g2 a b = None
            \<and> propertyGet g2 (Some (LinkE (Suc (length (heap g))))) ''dir'' = Some ''both''"
proof -
  let ?r1 = "(new_link_record a b None None None)
               \<lparr> link_properties :=
                   AList.update ''arrowsize'' (str_float (initial_arrow_width g))
                     (AList.update ''penwidth'' (str_float (initial_line_width g))
                        (link_properties (new_link_record a b None None None))) \<rparr>"
  let ?g1 = "g\<lparr> heap := heap g @ [?r1], links := links g @ [length (heap g)] \<rparr>"
  let ?r2 = "(new_link_record b a None None None)
               \<lparr> link_properties :=
                   AList.update ''arrowsize'' (str_float (initial_arrow_width g))
                     (AList.update ''penwidth'' (str_float (initial_line_width g))
                        (AList.update ''dir'' ''both''
                           (link_properties (new_link_record b a None None None)))) \<rparr>"
  let ?g2 = "g\<lparr> heap := heap g @ [?r1, ?r2], links := links g @ [Suc (length (heap g))] \<rparr>"
  have ends: "from_node ?r1 = a" "to_node ?r1 = b" "from_node ?r2 = b" "to_node ?r2 = a"
    by (simp_all add: new_link_record_def)
  have step1: "link_new g a b None None None = Inr (length (heap g), ?g1)"
    using assms by (simp add: link_new_first)
  have ok1: "heap_ok ?g1" using assms(2) by (rule heap_ok_stored)
  have fwd1: "link_exists ?g1 b a = None"
    using assms(3,5) by (simp add: link_exists_stored [OF assms(2), of _ ?r1] ends)
  have rev1: "link_exists ?g1 a b = Some (length (heap g))"
    using assms(4) by (simp add: link_exists_stored [OF assms(2), of _ ?r1] ends)
  have rm: "remove1 (length (heap g)) (links g @ [length (heap g)]) = links g"
    using heap_ok_fresh [OF assms(2)] by (simp add: remove1_append)
  have step2: "link_new ?g1 b a None None None = Inr (Suc (length (heap g)), ?g2)"
    using assms(1) rm by (simp add: link_new_reverse [OF _ ok1 fwd1 rev1])
  have ok_old: "heap_ok (g\<lparr> heap := heap g @ [?r1] \<rparr>)"
    using assms(2) by (auto simp: heap_ok_def list_all_iff)
  have old_ba: "link_exists (g\<lparr> heap := heap g @ [?r1] \<rparr>) b a = None"
    and old_ab: "link_exists (g\<lparr> heap := heap g @ [?r1] \<rparr>) a b = None"
    using assms(4,5) by (simp_all add: link_exists_alloc [OF assms(2)])
  have "link_exists ?g2 b a = Some (Suc (length (heap g)))"
    using old_ba by (simp add: link_exists_stored [OF ok_old, of _ ?r2] ends)
  moreover have "link_exists ?g2 a b = None"
    using old_ab assms(3) by (simp add: link_exists_stored [OF ok_old, of _ ?r2] ends)
  moreover have "propertyGet ?g2 (Some (LinkE (Suc (length (heap g))))) ''dir'' = Some ''both''"
    by (simp add: propertyGet_link nth_append update_conv' new_link_record_def truthy_def)
  moreover have "then_newLink (then_newLink (Inr g) a b) b a = Inr ?g2"
    by (simp add: then_newLink_Inr step1 bind_err_def step2)
  ultimately show ?thesis by simp
qed


theorem smart_link_reversal_witness:
  "smart_mode graph_AB_smart \<and> heap_ok graph_AB_smart \<and> (1::nat) \<noteq> 2
   \<and> link_exists graph_AB_smart 1 2 = None \<and> link_exists graph_AB_smart 2 1 = None
   \<and> (\<exists>g2. then_newLink (then_newLink (Inr graph_AB_smart) 1 2) 2 1 = Inr g2
            \<and> links g2 = [1]
            \<and> link_exists g2 2 1 = Some 1
            \<and> link_exists g2 1 2 = None
            \<and> propertyGet g2 (Some (LinkE 1)) ''dir'' = Some ''both'')"
proof -
  have h1: "smart_mode graph_AB_smart"
    by (simp add: graph_AB_smart_def)
  have h2: "heap_ok graph_AB_smart"
    by (simp add: graph_AB_smart_def graph_AB_def GvGen_init_def heap_ok_def)
  have h3: "(1::nat) \<noteq> 2" by simp
  have h4: "link_exists graph_AB_smart 1 2 = None" and h5: "link_exists graph_AB_smart 2 1 = None"
    by (simp_all add: graph_AB_smart_def graph_AB_def GvGen_init_def link_exists_def)
  have e: "heap graph_AB_smart = []" "links graph_AB_smart = []"
    by (simp_all add: graph_AB_smart_def graph_AB_def GvGen_init_def)
  from smart_link_reversal [OF h1 h2 h3 h4 h5] h1 h2 h4 h5 e
  show ?thesis by simp
qed

text \<open>
  The claim as it was stated fails: after \<open>newLink(A, B)\<close> and \<open>newLink(B, A)\<close> in
  smart mode the one stored link goes from B (node 2) to A (node 1); no link from A to B
  is stored.
\<close>

theorem smart_link_reversal_counterexample:
  "stored_summary (then_newLink (then_newLink (Inr graph_AB_smart) 1 2) 2 1) ''dir''
   = Inr [(2, 1, Some ''both'')]"
  by code_simp

text \<open>
  Claim C5. In smart mode with step 1, initial pen width 1.2 and cap 10 (and the default
  arrow settings), on a graph that stores no link between two different nodes A and B,
  three calls \<open>newLink(A, B)\<close> leave the stored links as they were plus one: the link
  made by the first call. It is the only stored link from A to B, and its \<open>penwidth\<close>
  is \<open>3.2\<close>.
\<close>

theorem smart_link_three_times:
  assumes "smart_mode g" and "heap_ok g" and "a \<noteq> b"
    and "link_exists g a b = None" and "link_exists g b a = None"
    and "line_factor g = PyFloat 1 0" and "initial_line_width g = PyFloat 12 1"
    and "max_line_width g = PyFloat 10 0"
    and "arrow_factor g = PyFloat 5 1" and "initial_arrow_width g = PyFloat 8 1"
    and "max_arrow_width g = PyFloat 2 0"
  shows "\<exists>g3. then_newLink (then_newLink (then_newLink (Inr g) a b) a b) a b = Inr g3
            \<and> links g3 = links g @ [length (heap g)]
            \<and> filter (link_matches g3 a b) (links g3) = [length (heap g)]
            \<and> propertyGet g3 (Some (LinkE (length (heap g)))) ''penwidth'' = Some ''3.2''"
proof -
  let ?H = "length (heap g)"
  let ?r = "new_link_record a b None None None"
  let ?l1 = "?r\<lparr> link_properties := [(''penwidth'', ''1.2''), (''arrowsize'', ''0.8'')] \<rparr>"
  let ?l2 = "?r\<lparr> link_properties := [(''penwidth'', ''2.2''), (''arrowsize'', ''1.3'')] \<rparr>"
  let ?l3 = "?r\<lparr> link_properties := [(''penwidth'', ''3.2''), (''arrowsize'', ''1.8'')] \<rparr>"
  let ?g1 = "g\<lparr> heap := heap g @ [?l1], links := links g @ [?H] \<rparr>"
  let ?g2 = "g\<lparr> heap := heap g @ [?l2, ?r], links := links g @ [?H] \<rparr>"
  let ?g3 = "g\<lparr> heap := heap g @ [?l3, ?r, ?r], links := links g @ [?H] \<rparr>"
  have rp: "link_properties ?r = []" and ends: "from_node ?r = a" "to_node ?r = b"
    by (simp_all add: new_link_record_def truthy_def)
  have step1: "link_new g a b None None None = Inr (?H, ?g1)"
    using assms(1,2,4,5,7,10)
    by (simp add: link_new_first rp str_float_defaults del: One_nat_def)
  have ok1: "heap_ok ?g1" using assms(2) by (rule heap_ok_stored)
  have fwd1: "link_exists ?g1 a b = Some ?H"
    using assms(4) by (simp add: link_exists_stored [OF assms(2), of _ ?l1] ends)
  have rev1: "link_exists ?g1 b a = None"
    using assms(3,5) by (simp add: link_exists_stored [OF assms(2), of _ ?l1] ends)
  have step2: "link_new ?g1 a b None None None = Inr (Suc ?H, ?g2)"
    using assms(1,6,8,9,11)
      link_new_repeat [OF _ ok1 fwd1 rev1, of "''1.2''" "PyFloat 12 1" "''0.8''" "PyFloat 8 1"
        None None None]
    by (simp add: float_of_str_defaults str_float_defaults float_less_defaults del: One_nat_def)
  have ok2: "heap_ok ?g2" using assms(2) by (auto simp: heap_ok_def list_all_iff)
  have fwd2: "link_exists ?g2 a b = Some ?H"
    using fwd1 link_exists_thicken [OF ok1, of ?H ?l2 ?g2 "[?r]" a b] by (simp add: ends)
  have rev2: "link_exists ?g2 b a = None"
    using rev1 link_exists_thicken [OF ok1, of ?H ?l2 ?g2 "[?r]" b a] by (simp add: ends)
  have step3: "link_new ?g2 a b None None None = Inr (Suc (Suc ?H), ?g3)"
    using assms(1,6,8,9,11)
      link_new_repeat [OF _ ok2 fwd2 rev2, of "''2.2''" "PyFloat 22 1" "''1.3''" "PyFloat 13 1"
        None None None]
    by (simp add: float_of_str_defaults str_float_defaults float_less_defaults nth_append
          del: One_nat_def)
  have run: "then_newLink (then_newLink (then_newLink (Inr g) a b) a b) a b = Inr ?g3"
    by (simp add: then_newLink_Inr step1 step2 step3 bind_err_def)
  have old: "\<not> link_matches ?g3 a b h" if "h \<in> set (links g)" for h
  proof -
    from that assms(2) have "h < length (heap g)" by (simp add: heap_ok_def list_all_iff)
    then have "link_matches ?g3 a b h = link_matches g a b h"
      by (simp add: link_matches_def find_link_def nth_append)
    with link_exists_NoneD [OF assms(4) that] show ?thesis by simp
  qed
  have new: "link_matches ?g3 a b ?H"
    by (simp add: link_matches_def find_link_def ends)
  have one: "filter (link_matches ?g3 a b) (links ?g3) = [?H]"
    using old new by (simp add: filter_empty_conv)
  have pen: "propertyGet ?g3 (Some (LinkE ?H)) ''penwidth'' = Some ''3.2''"
    by (simp add: propertyGet_link)
  from run one pen show ?thesis by simp
qed


theorem smart_link_three_times_witness:
  "smart_mode graph_AB_smart \<and> heap_ok graph_AB_smart \<and> (1::nat) \<noteq> 2
   \<and> link_exists graph_AB_smart 1 2 = None \<and> link_exists graph_AB_smart 2 1 = None
   \<and> line_factor graph_AB_smart = PyFloat 1 0
   \<and> initial_line_width graph_AB_smart = PyFloat 12 1
   \<and> max_line_width graph_AB_smart = PyFloat 10 0
   \<and> arrow_factor graph_AB_smart = PyFloat 5 1
   \<and> initial_arrow_width graph_AB_smart = PyFloat 8 1
   \<and> max_arrow_width graph_AB_smart = PyFloat 2 0
   \<and> (\<exists>g3. then_newLink (then_newLink (then_newLink (Inr graph_AB_smart) 1 2) 1 2) 1 2 = Inr g3
            \<and> links g3 = [0]
            \<and> filter (link_matches g3 1 2) (links g3) = [0]
            \<and> propertyGet g3 (Some (LinkE 0)) ''penwidth'' = Some ''3.2'')"
proof -
  have h1: "smart_mode graph_AB_smart"
    by (simp add: graph_AB_smart_def)
  have h2: "heap_ok graph_AB_smart"
    by (simp add: graph_AB_smart_def graph_AB_def GvGen_init_def heap_ok_def)
  have h3: "(1::nat) \<noteq> 2" by simp
  have h4: "link_exists graph_AB_smart 1 2 = None" and h5: "link_exists graph_AB_smart 2 1 = None"
    by (simp_all add: graph_AB_smart_def graph_AB_def GvGen_init_def link_exists_def)
  have c: "line_factor graph_AB_smart = PyFloat 1 0"
    "initial_line_width graph_AB_smart = PyFloat 12 1"
    "max_line_width graph_AB_smart = PyFloat 10 0"
    "arrow_factor graph_AB_smart = PyFloat 5 1"
    "initial_arrow_width graph_AB_smart = PyFloat 8 1"
    "max_arrow_width graph_AB_smart = PyFloat 2 0"
    by (simp_all add: graph_AB_smart_def graph_AB_def GvGen_init_def del: One_nat_def)
  have e: "heap graph_AB_smart = []" "links graph_AB_smart = []"
    by (simp_all add: graph_AB_smart_def graph_AB_def GvGen_init_def)
  from smart_link_three_times [OF h1 h2 h3 h4 h5 c] h1 h2 h4 h5 c e
  show ?thesis by simp
qed

text \<open>
  Claim C4. In smart mode the arrow size of a stored link does not stay below the cap:
  \<open>__link_smart\<close> compares the arrow size with \<open>max_arrow_width\<close> before adding the
  step and writes the sum without comparing again (the pen width is compared after the
  addition). With the default settings the fourth \<open>newLink(A, B)\<close> writes
  \<open>arrowsize = 2.3\<close>, which is above the cap 2.
\<close>

theorem arrowsize_exceeds_cap:
  "stored_summary
     (then_newLink (then_newLink (then_newLink (then_newLink (Inr graph_AB_smart) 1 2) 1 2) 1 2) 1 2)
     ''arrowsize''
   = Inr [(1, 2, Some ''2.3'')]
   \<and> float_of_str ''2.3'' = Inr (PyFloat 23 1)
   \<and> float_less (max_arrow_width graph_AB_smart) (PyFloat 23 1)"
  by code_simp

subsection \<open>Links that touch a cluster\<close>

lemma graph_cluster_built:
  "then_newItem (then_newItem (then_newItem (then_newItem (Inr GvGen_init) ''C1'' None False)
       ''n1'' (Some 1) False) ''n2'' (Some 1) False) ''n3'' None False
   = Inr graph_cluster"
  by (simp add: then_newItem_def newItem_def node_new_def bind_err_def GvGen_init_def
        graph_cluster_def)

lemma find_filter_conv:
  "find P xs = (case filter P xs of [] \<Rightarrow> None | x # _ \<Rightarrow> Some x)"
  by (induction xs) simp_all

lemma first_child_children:
  "first_child g n = (case has_children g n of [] \<Rightarrow> None | c # _ \<Rightarrow> Some c)"
  by (simp add: first_child_def has_children_def find_filter_conv)

text \<open>
  Claim C6. The statement written for a link (whose own attribute text is \<open>props\<close>) has
  as source the override \<open>cl_from_node\<close> when the source node has children and the
  override is set, the first child in creation order when it has children and no override,
  and the node itself when it has no children; the target is chosen in the same way from
  \<open>to_node\<close> and \<open>cl_to_node\<close>. The attribute \<open>ltail=cluster<id>\<close> is added
  exactly when the source has children, \<open>lhead=cluster<id>\<close> exactly when the target
  has, and nothing else is added. Node ids are not 0: the graph numbers its nodes from 1.
\<close>

theorem cluster_edge_rendering:
  assumes "propertiesLinkAsStringGet g l = Inr props"
    and "from_node l \<noteq> 0" and "to_node l \<noteq> 0"
  shows "dotLink g (from_node l) l = Inr (rendered_link g l props)"
proof (cases "has_children g (from_node l)")
  case srcleaf: Nil
  show ?thesis
  proof (cases "has_children g (to_node l)")
    case Nil
    with srcleaf assms show ?thesis
      by (simp add: dotLink_def rendered_link_def rendered_endpoint_def cluster_attr_def
            first_child_children bind_err_def)
  next
    case (Cons c cs)
    with srcleaf assms show ?thesis
      by (simp add: dotLink_def rendered_link_def rendered_endpoint_def cluster_attr_def
            first_child_children bind_err_def split: option.splits)
  qed
next
  case srccl: (Cons d ds)
  show ?thesis
  proof (cases "has_children g (to_node l)")
    case Nil
    with srccl assms show ?thesis
      by (simp add: dotLink_def rendered_link_def rendered_endpoint_def cluster_attr_def
            first_child_children bind_err_def split: option.splits)
  next
    case (Cons c cs)
    with srccl assms show ?thesis
      by (simp add: dotLink_def rendered_link_def rendered_endpoint_def cluster_attr_def
            first_child_children bind_err_def split: option.splits)
  qed
qed

theorem cluster_edge_rendering_witness:
  "propertiesLinkAsStringGet graph_cluster (new_link_record 1 4 None None None) = Inr []
   \<and> from_node (new_link_record 1 4 None None None) \<noteq> 0
   \<and> to_node (new_link_record 1 4 None None None) \<noteq> 0
   \<and> dotLink graph_cluster (from_node (new_link_record 1 4 None None None))
        (new_link_record 1 4 None None None)
       = Inr (rendered_link graph_cluster (new_link_record 1 4 None None None) [])
   \<and> rendered_link graph_cluster (new_link_record 1 4 None None None) []
       = ''   node2->node4 [ltail=cluster1];'' @ newline"
proof -
  let ?l = "new_link_record 1 4 None None None"
  have h1: "propertiesLinkAsStringGet graph_cluster ?l = Inr []"
    by code_simp
  have h2: "from_node ?l \<noteq> 0" and h3: "to_node ?l \<noteq> 0"
    by (simp_all add: new_link_record_def)
  have v: "rendered_link graph_cluster ?l [] = ''   node2->node4 [ltail=cluster1];'' @ newline"
    by code_simp
  from cluster_edge_rendering [OF h1 h2 h3] h1 h2 h3 v
  show ?thesis by simp
qed

subsection \<open>What the text depends on\<close>







subsection \<open>What a call of \<open>__link_smart\<close> can change\<close>

lemma only_properties_refl: "only_properties g g"
  by (simp add: only_properties_def list_all_iff)

lemma only_properties_trans:
  assumes "only_properties g g1" and "only_properties g1 g2"
  shows "only_properties g g2"
  unfolding only_properties_def list_all_iff
proof (intro conjI ballI)
  show "length (heap g2) = length (heap g)"
    using assms by (simp add: only_properties_def)
next
  fix h assume "h \<in> set [0 ..< length (heap g)]"
  then have h: "h < length (heap g)" by simp
  with assms(1) have a: "heap g1 ! h = (heap g ! h)\<lparr> link_properties := link_properties (heap g1 ! h) \<rparr>"
    and len: "length (heap g1) = length (heap g)"
    by (simp_all add: only_properties_def list_all_iff)
  from assms(2) h len
  have b: "heap g2 ! h = (heap g1 ! h)\<lparr> link_properties := link_properties (heap g2 ! h) \<rparr>"
    by (simp add: only_properties_def list_all_iff)
  show "heap g2 ! h = (heap g ! h)\<lparr> link_properties := link_properties (heap g2 ! h) \<rparr>"
    by (subst b, subst a) simp
qed

lemma only_properties_propertyAppend:
  "only_properties g (propertyAppend g (LinkE x) k v)"
  by (auto simp: only_properties_def propertyAppend_def find_link_def list_all_iff nth_list_update)

lemma only_properties_links:
  "only_properties g (g\<lparr> links := ls \<rparr>)"
  by (simp add: only_properties_def list_all_iff)

lemma propertyAppend_fields:
  "links (propertyAppend g (LinkE x) k v) = links g"
  "smart_mode (propertyAppend g (LinkE x) k v) = smart_mode g"
  by (simp_all add: propertyAppend_def split: option.splits)

lemma float_of_str_error: "float_of_str s = Inl e \<Longrightarrow> e = ValueError"
  by (auto simp: float_of_str_def Let_def split: if_splits option.splits)

lemma smart_penwidth_cases:
  "(\<exists>g'. smart_penwidth g link lf = Inr g' \<and> only_properties g g' \<and> links g' = links g)
   \<or> (smart_penwidth g link lf = Inl ValueError \<and> lf \<noteq> None)"
proof (cases "truthy (propertyGet g (map_option LinkE lf) ''penwidth'')")
  case False
  then show ?thesis
    by (simp add: smart_penwidth_init only_properties_propertyAppend propertyAppend_fields)
next
  case True
  then obtain f pw where lf: "lf = Some f"
    and pw: "propertyGet g (Some (LinkE f)) ''penwidth'' = Some pw" "pw \<noteq> []"
    by (cases lf) (auto simp: truthy_def propertyGet_def split: option.splits)
  show ?thesis
  proof (cases "float_of_str pw")
    case (Inl e)
    with float_of_str_error [OF Inl] show ?thesis
      by (simp add: lf smart_penwidth_thicken [OF pw] bind_err_def)
  next
    case (Inr x)
    then show ?thesis
      by (simp add: lf smart_penwidth_thicken [OF pw] bind_err_def only_properties_refl
            only_properties_propertyAppend propertyAppend_fields)
  qed
qed

lemma smart_arrowsize_cases:
  "(\<exists>g'. smart_arrowsize g link lf = Inr g' \<and> only_properties g g' \<and> links g' = links g)
   \<or> (smart_arrowsize g link lf = Inl ValueError \<and> lf \<noteq> None)"
proof (cases "truthy (propertyGet g (map_option LinkE lf) ''arrowsize'')")
  case False
  then show ?thesis
    by (simp add: smart_arrowsize_init only_properties_propertyAppend propertyAppend_fields)
next
  case True
  then obtain f aw where lf: "lf = Some f"
    and aw: "propertyGet g (Some (LinkE f)) ''arrowsize'' = Some aw" "aw \<noteq> []"
    by (cases lf) (auto simp: truthy_def propertyGet_def split: option.splits)
  show ?thesis
  proof (cases "float_of_str aw")
    case (Inl e)
    with float_of_str_error [OF Inl] show ?thesis
      by (simp add: lf smart_arrowsize_thicken [OF aw] bind_err_def)
  next
    case (Inr x)
    then show ?thesis
      by (simp add: lf smart_arrowsize_thicken [OF aw] bind_err_def only_properties_refl
            only_properties_propertyAppend propertyAppend_fields)
  qed
qed



lemma link_smart_cases:
  assumes "find_link g link = Some l"
  shows "(\<exists>g'. link_smart g link = Inr g' \<and> only_properties g g'
              \<and> set (links g') \<subseteq> (if link_exists g (from_node l) (to_node l) = None
                                    then insert link (set (links g)) else set (links g)))
       \<or> (link_smart g link = Inl ValueError \<and> smart_mode g
           \<and> link_exists g (from_node l) (to_node l) \<noteq> None)"
proof (cases "smart_mode g")
  case False
  with assms show ?thesis
    by (auto simp: link_smart_def Let_def bind_err_def only_properties_def list_all_iff)
next
  case True
  let ?lf = "link_exists g (from_node l) (to_node l)"
  let ?lt = "link_exists g (to_node l) (from_node l)"
  let ?final = "\<lambda>g3. if ?lf = None then Inr (g3\<lparr> links := links g3 @ [link] \<rparr>) else Inr g3"
  define gA where "gA = (case ?lt of
      None \<Rightarrow> g
    | Some r \<Rightarrow> propertyAppend (g\<lparr> links := remove1 r (links g) \<rparr>) (LinkE link) ''dir'' ''both'')"
  have stageA: "(case ?lt of
                   None \<Rightarrow> Inr g
                 | Some r \<Rightarrow> bind_err (list_remove g r (links g))
                     (\<lambda>ls. Inr (propertyAppend (g\<lparr> links := ls \<rparr>) (LinkE link) ''dir'' ''both'')))
                = Inr gA"
    by (cases ?lt) (simp_all add: gA_def list_remove_found bind_err_def)
  have propsA: "only_properties g gA"
  proof (cases ?lt)
    case None
    then show ?thesis by (simp add: gA_def only_properties_refl)
  next
    case (Some r)
    have "only_properties g (g\<lparr> links := remove1 r (links g) \<rparr>)"
      by (rule only_properties_links)
    moreover have "only_properties (g\<lparr> links := remove1 r (links g) \<rparr>)
      (propertyAppend (g\<lparr> links := remove1 r (links g) \<rparr>) (LinkE link) ''dir'' ''both'')"
      by (rule only_properties_propertyAppend)
    ultimately show ?thesis using Some by (simp add: gA_def only_properties_trans)
  qed
  have linksA: "set (links gA) \<subseteq> set (links g)"
    using set_remove1_subset [of _ "links g"]
    by (cases ?lt) (auto simp: gA_def propertyAppend_fields)
  have unfold: "link_smart g link
                = bind_err (bind_err (smart_penwidth gA link ?lf)
                              (\<lambda>g2. smart_arrowsize g2 link ?lf)) ?final"
    using assms True stageA by (simp add: link_smart_def Let_def bind_err_def)
  from smart_penwidth_cases [of gA link ?lf]
  show ?thesis
  proof (elim disjE exE conjE)
    fix gB assume B: "smart_penwidth gA link ?lf = Inr gB" "only_properties gA gB"
      "links gB = links gA"
    from smart_arrowsize_cases [of gB link ?lf]
    show ?thesis
    proof (elim disjE exE conjE)
      fix gC assume C: "smart_arrowsize gB link ?lf = Inr gC" "only_properties gB gC"
        "links gC = links gB"
      have props: "only_properties g gC"
        using propsA B(2) C(2) by (blast intro: only_properties_trans)
      show ?thesis
      proof (cases "?lf = None")
        case None: True
        have "only_properties g (gC\<lparr> links := links gC @ [link] \<rparr>)"
          using props only_properties_links [of gC] by (blast intro: only_properties_trans)
        with None B C linksA show ?thesis
          by (auto simp: unfold bind_err_def)
      next
        case False
        with props B C linksA show ?thesis
          by (auto simp: unfold bind_err_def)
      qed
    next
      assume "smart_arrowsize gB link ?lf = Inl ValueError" "?lf \<noteq> None"
      with B True show ?thesis by (simp add: unfold bind_err_def)
    qed
  next
    assume "smart_penwidth gA link ?lf = Inl ValueError" "?lf \<noteq> None"
    with True show ?thesis by (simp add: unfold bind_err_def)
  qed
qed

subsection \<open>Stored references stay valid\<close>

text \<open>
  \<open>heap_ok\<close> holds of a new graph and every operation keeps it.
\<close>

lemma heap_ok_init: "heap_ok GvGen_init"
  by (simp add: heap_ok_def GvGen_init_def)

lemma heap_ok_newItem:
  assumes "heap_ok g" and "newItem g name parent d = Inr (r, g')"
  shows "heap_ok g'"
  using assms node_new_cases [of g name parent d]
  by (auto simp: newItem_def heap_ok_def)

lemma heap_ok_newLink:
  assumes "heap_ok g" and "newLink g a b label cf ct = Inr (h, g')"
  shows "heap_ok g'"
proof -
  let ?r = "new_link_record a b label cf ct"
  let ?g0 = "g\<lparr> heap := heap g @ [?r] \<rparr>"
  have fl: "find_link ?g0 (length (heap g)) = Some ?r" by (simp add: find_link_alloc)
  from assms(2) have run: "link_smart ?g0 (length (heap g)) = Inr g'"
    by (auto simp: newLink_def link_new_def Let_def bind_err_def split: sum.splits)
  from link_smart_cases [OF fl] run
  have props: "only_properties ?g0 g'"
    and sub: "set (links g') \<subseteq> insert (length (heap g)) (set (links g))"
    by (auto split: if_splits)
  from props have "length (heap g') = Suc (length (heap g))"
    by (simp add: only_properties_def)
  moreover have "h < Suc (length (heap g))" if "h \<in> set (links g')" for h
  proof -
    from that sub have "h = length (heap g) \<or> h \<in> set (links g)" by auto
    with assms(1) show ?thesis by (auto simp: heap_ok_def list_all_iff)
  qed
  ultimately show ?thesis
    by (simp add: heap_ok_def list_all_iff)
qed

lemma heap_ok_propertyAppend: "heap_ok g \<Longrightarrow> heap_ok (propertyAppend g e k v)"
  by (cases e) (auto simp: heap_ok_def propertyAppend_def split: option.splits)

lemma heap_ok_propertyRemove:
  "heap_ok g \<Longrightarrow> propertyRemove g e k = Inr g' \<Longrightarrow> heap_ok g'"
  by (cases e) (auto simp: heap_ok_def propertyRemove_def split: option.splits)

lemma heap_ok_styles:
  "heap_ok g \<Longrightarrow> heap_ok (styleAppend g s k v)"
  "heap_ok g \<Longrightarrow> heap_ok (styleDefaultAppend g k v)"
  "heap_ok g \<Longrightarrow> heap_ok (styleApply g s e)"
  by (cases e; simp add: heap_ok_def styleAppend_def styleDefaultAppend_def Let_def)+

lemma graph_AB_linked_built:
  "newLink graph_AB 1 2 None None None = Inr (0, graph_AB_linked)"
  by code_simp





end
